theory Spec2Isabelle
  imports Main "HOL-Library.Word" "HOL-Library.Multiset"
begin

section \<open>Data model of the host's revision negotiation\<close>

text \<open>
  The embedding follows \<^verbatim>\<open>modules/host/negotiaterevisecontract.go\<close>. Types that the file
  imports from other packages are given here with the fields the file reads or writes.
\<close>

type_synonym byte = "8 word"
type_synonym uint64 = "64 word"

text \<open>\<^verbatim>\<open>crypto.Hash\<close> is a 32-byte array; it is kept as a list of bytes.\<close>
type_synonym Hash = "byte list"

text \<open>
  \<^verbatim>\<open>types.Currency\<close> wraps an arbitrary-precision non-negative integer; \<^verbatim>\<open>Add\<close> and
  \<^verbatim>\<open>Mul\<close> are exact, and \<^verbatim>\<open>NewCurrency64\<close> embeds a \<^verbatim>\<open>uint64\<close>.
\<close>
type_synonym Currency = nat
type_synonym BlockHeight = uint64

definition NewCurrency64 :: "uint64 \<Rightarrow> Currency" where
  "NewCurrency64 x = unat x"

text \<open>
  The package-level errors of the file, the error built in place by \<^verbatim>\<open>errors.New\<close> at the
  covered-fields check, the stop response of \<^verbatim>\<open>modules\<close>, errors handed back by
  collaborators, and the run-time panic of an out-of-range slice expression.
\<close>
datatype error =
    errBadModificationIndex
  | errBadSectorSize
  | errIllegalOffsetAndLength
  | errLargeSector
  | errUnknownModification
  | errRenterCoversWholeTransaction
  | ErrStopResponse
  | errExternal string
  | panicSliceBounds

text \<open>
  \<^verbatim>\<open>RevisionAction.Type\<close> is a specifier read off the wire: the three actions the host
  knows, and any other value.
\<close>
datatype Specifier = ActionDelete | ActionInsert | ActionModify | OtherSpecifier string

record RevisionAction =
  Type :: Specifier
  SectorIndex :: uint64
  Offset :: uint64
  Data :: "byte list"

record HostInternalSettings =
  MaxReviseBatchSize :: uint64
  MinimumUploadBandwidthPrice :: Currency
  MinimumStoragePrice :: Currency
  Collateral :: Currency

text \<open>
  The storage obligation. \<open>proofDeadline\<close> holds the value of the method
  \<^verbatim>\<open>so.proofDeadline()\<close>, \<open>so_id\<close> the value of \<^verbatim>\<open>so.id()\<close>, and
  \<open>RevisionNumber\<close> the revision number of the most recent revision of the contract;
  none of them is written by the code of this file.
\<close>
record storageObligation =
  so_id :: nat
  SectorRoots :: "Hash list"
  AnticipatedRevenue :: Currency
  ConfirmedRevenue :: Currency
  RiskedCollateral :: Currency
  proofDeadline :: BlockHeight
  RevisionNumber :: uint64

text \<open>The round-scoped variables declared before the modification loop.\<close>
record accumulators =
  bandwidthRevenue :: Currency
  storageRevenue :: Currency
  collateralRisked :: Currency
  sectorsRemoved :: "Hash list"
  sectorsGained :: "Hash list"
  gainedSectorData :: "byte list list"

definition zeroAccumulators :: accumulators where
  "zeroAccumulators =
     \<lparr>bandwidthRevenue = 0, storageRevenue = 0, collateralRisked = 0,
      sectorsRemoved = [], sectorsGained = [], gainedSectorData = []\<rparr>"

text \<open>
  The transaction types of package \<^verbatim>\<open>types\<close>, with the fields this file reads or
  writes. The composite literal for the host's signature leaves \<open>Signature\<close> empty.
\<close>
record CoveredFields =
  WholeTransaction :: bool
  cf_FileContractRevisions :: "uint64 list"

record TransactionSignature =
  sig_ParentID :: Hash
  PublicKeyIndex :: uint64
  sig_CoveredFields :: CoveredFields
  Signature :: "byte list"

record FileContractRevision =
  rev_ParentID :: Hash
  NewRevisionNumber :: uint64

record Transaction =
  FileContractRevisions :: "FileContractRevision list"
  TransactionSignatures :: "TransactionSignature list"

text \<open>
  What the file takes from other packages as constants and pure functions:
  \<^verbatim>\<open>modules.SectorSize\<close>, \<^verbatim>\<open>crypto.MerkleRoot\<close>, \<^verbatim>\<open>txn.SigHash\<close>,
  \<^verbatim>\<open>crypto.SignHash\<close> and \<^verbatim>\<open>txn.StandaloneValid\<close>.
\<close>
record externals =
  SectorSize :: uint64
  MerkleRoot :: "byte list \<Rightarrow> Hash"
  SigHash :: "Transaction \<Rightarrow> nat \<Rightarrow> Hash"
  SignHash :: "Hash \<Rightarrow> byte list \<Rightarrow> error + byte list"
  StandaloneValid :: "Transaction \<Rightarrow> BlockHeight \<Rightarrow> error option"

text \<open>
  The host as one round sees it: the values copied under the read lock
  (\<open>settings\<close>, \<open>secretKey\<close>, \<open>blockHeight\<close>), the sector store behind
  \<^verbatim>\<open>h.readSector\<close>, and the answer of \<^verbatim>\<open>h.modifyStorageObligation\<close>, whose effect
  on the database lies outside this file.
\<close>
record Host =
  settings :: HostInternalSettings
  secretKey :: "byte list"
  blockHeight :: BlockHeight
  readSector :: "Hash \<Rightarrow> error + byte list"
  modifyStorageObligation ::
    "storageObligation \<Rightarrow> Hash list \<Rightarrow> Hash list \<Rightarrow> byte list list \<Rightarrow> error option"

section \<open>The modification loop\<close>

text \<open>
  \<^verbatim>\<open>copy(sector[off:], data)\<close> for \<open>off\<close> within \<open>sector\<close>: as many bytes of \<open>data\<close>
  as fit behind \<open>off\<close> replace the bytes there. The slice expression panics when \<open>off\<close>
  exceeds the length of \<open>sector\<close>; \<open>applyModification\<close> tests for that before it copies.
\<close>
definition copyAt :: "byte list \<Rightarrow> nat \<Rightarrow> byte list \<Rightarrow> byte list" where
  "copyAt sector off data =
     take off sector @ take (length sector - off) data @ drop (off + length data) sector"

text \<open>
  One pass through the body of the loop over \<open>modifications\<close> (lines 94 to 162). Every
  \<^verbatim>\<open>return\<close> of the body comes before its first assignment, so a failing pass leaves
  the obligation and the accumulators as the passes before it left them.
  \<^verbatim>\<open>len\<close> of a Go slice is below \<open>2^63\<close>, so \<^verbatim>\<open>uint64(len(x))\<close> is the length itself.
\<close>
definition applyModification ::
  "externals \<Rightarrow> Host \<Rightarrow> storageObligation \<times> accumulators \<Rightarrow> RevisionAction
     \<Rightarrow> error + (storageObligation \<times> accumulators)" where
  "applyModification ext h st modification =
    (let so = fst st; acc = snd st; i = unat (SectorIndex modification) in
     if (if Type modification = ActionInsert
         then length (SectorRoots so) < i
         else length (SectorRoots so) \<le> i)
     then Inl errBadModificationIndex
     else if unat (SectorSize ext) < length (Data modification) then Inl errLargeSector
     else if Type modification = ActionDelete then
       Inr (so\<lparr>SectorRoots := take i (SectorRoots so) @ drop (i + 1) (SectorRoots so)\<rparr>,
            acc\<lparr>sectorsRemoved := sectorsRemoved acc @ [SectorRoots so ! i]\<rparr>)
     else if Type modification = ActionInsert then
       (if length (Data modification) \<noteq> unat (SectorSize ext) then Inl errBadSectorSize
        else
          (let blocksRemaining = proofDeadline so - blockHeight h;
               blockBytesCurrency = NewCurrency64 blocksRemaining * NewCurrency64 (SectorSize ext);
               newRoot = MerkleRoot ext (Data modification) in
           Inr (so\<lparr>SectorRoots := take i (SectorRoots so) @ ([newRoot] @ drop i (SectorRoots so))\<rparr>,
                acc\<lparr>bandwidthRevenue := bandwidthRevenue acc
                         + MinimumUploadBandwidthPrice (settings h) * NewCurrency64 (SectorSize ext),
                    storageRevenue := storageRevenue acc
                         + MinimumStoragePrice (settings h) * blockBytesCurrency,
                    collateralRisked := collateralRisked acc
                         + Collateral (settings h) * blockBytesCurrency,
                    sectorsGained := sectorsGained acc @ [newRoot],
                    gainedSectorData := gainedSectorData acc @ [Data modification]\<rparr>)))
     else if Type modification = ActionModify then
       (if SectorSize ext < Offset modification
           \<or> SectorSize ext < Offset modification + word_of_nat (length (Data modification))
        then Inl errIllegalOffsetAndLength
        else
          (case readSector h (SectorRoots so ! i) of
             Inl err \<Rightarrow> Inl err
           | Inr sector \<Rightarrow>
               if length sector < unat (Offset modification) then Inl panicSliceBounds
               else
                 (let sector' = copyAt sector (unat (Offset modification)) (Data modification);
                      newRoot = MerkleRoot ext sector' in
                  Inr (so\<lparr>SectorRoots := (SectorRoots so)[i := newRoot]\<rparr>,
                       acc\<lparr>bandwidthRevenue := bandwidthRevenue acc
                                + MinimumUploadBandwidthPrice (settings h) * NewCurrency64 (SectorSize ext),
                           sectorsRemoved := sectorsRemoved acc @ [SectorRoots so ! i],
                           sectorsGained := sectorsGained acc @ [newRoot],
                           gainedSectorData := gainedSectorData acc @ [sector']\<rparr>))))
     else Inl errUnknownModification)"

text \<open>
  The loop itself: the closure returns at the first failing modification, and what the
  earlier passes assigned to \<^verbatim>\<open>so.SectorRoots\<close> and to the accumulators stays assigned.
\<close>
fun processModifications ::
  "externals \<Rightarrow> Host \<Rightarrow> storageObligation \<times> accumulators \<Rightarrow> RevisionAction list
     \<Rightarrow> error option \<times> (storageObligation \<times> accumulators)" where
  "processModifications ext h st [] = (None, st)"
| "processModifications ext h st (modification # rest) =
     (case applyModification ext h st modification of
        Inl err \<Rightarrow> (Some err, st)
      | Inr st' \<Rightarrow> processModifications ext h st' rest)"

text \<open>
  The condition under which the index check at the head of the loop body (lines 97 to
  103) lets a modification through: an Insert may name the position after the last root.
\<close>
definition indexInBounds :: "storageObligation \<Rightarrow> RevisionAction \<Rightarrow> bool" where
  "indexInBounds so m =
     (if Type m = ActionInsert then unat (SectorIndex m) \<le> length (SectorRoots so)
      else unat (SectorIndex m) < length (SectorRoots so))"

section \<open>One round of negotiation\<close>

text \<open>
  What the peer and the network do in one round, in the order the round asks:
  the result of \<^verbatim>\<open>h.managedRPCSettings\<close>, of \<^verbatim>\<open>modules.ReadNegotiationAcceptance\<close>,
  of the three calls of \<^verbatim>\<open>encoding.ReadObject\<close>, of the two calls of
  \<^verbatim>\<open>modules.WriteNegotiationAcceptance\<close> and of the final \<^verbatim>\<open>encoding.WriteObject\<close>.
\<close>
record connScript =
  rpcSettings :: "error option"
  readAcceptance :: "error option"
  readModifications :: "error + RevisionAction list"
  readRevision :: "error + FileContractRevision"
  writeAcceptance1 :: "error option"
  readRenterSig :: "error + TransactionSignature"
  writeAcceptance2 :: "error option"
  writeSignature :: "error option"

text \<open>What the round itself writes to the connection.\<close>
datatype frame = AcceptFrame | RejectFrame error | SignatureFrame TransactionSignature

text \<open>
  Modelled from the spec: \<^verbatim>\<open>modules.WriteNegotiationRejection\<close> is not in this file. The
  spec has a rejection conveyed by writing an error-bearing rejection frame, after which
  the session ends with that error: the frame is appended to what was written and the
  error is handed back.
\<close>
definition WriteNegotiationRejection :: "frame list \<Rightarrow> error \<Rightarrow> error option \<times> frame list" where
  "WriteNegotiationRejection written err = (Some err, written @ [RejectFrame err])"

text \<open>
  \<^verbatim>\<open>verifyRevision\<close> (lines 284 to 296): the body holds the comments that name the checks
  and the single statement \<^verbatim>\<open>return nil\<close>.
\<close>
definition verifyRevision ::
  "storageObligation \<Rightarrow> FileContractRevision \<Rightarrow> Currency \<Rightarrow> Currency \<Rightarrow> Currency
     \<Rightarrow> error option" where
  "verifyRevision so revision storageRev bandwidthRev collateral = None"

text \<open>
  \<^verbatim>\<open>managedRevisionIteration\<close> (lines 48 to 241). The result is the returned error, the
  obligation behind the pointer \<^verbatim>\<open>so\<close> as the round leaves it, and the frames written.
\<close>
definition managedRevisionIteration ::
  "externals \<Rightarrow> Host \<Rightarrow> connScript \<Rightarrow> storageObligation
     \<Rightarrow> error option \<times> storageObligation \<times> frame list" where
  "managedRevisionIteration ext h conn so =
    (case rpcSettings conn of
       Some err \<Rightarrow> (Some err, so, [])
     | None \<Rightarrow>
    (case readAcceptance conn of
       Some err \<Rightarrow> (Some err, so, [])
     | None \<Rightarrow>
    (case readModifications conn of
       Inl err \<Rightarrow> (Some err, so, [])
     | Inr modifications \<Rightarrow>
    (case processModifications ext h (so, zeroAccumulators) modifications of
       (Some err, (so1, acc)) \<Rightarrow>
         (case WriteNegotiationRejection [] err of (r, written) \<Rightarrow> (r, so1, written))
     | (None, (so1, acc)) \<Rightarrow>
    (case readRevision conn of
       Inl err \<Rightarrow> (Some err, so1, [])
     | Inr revision \<Rightarrow>
    (case verifyRevision so1 revision (storageRevenue acc) (bandwidthRevenue acc)
            (collateralRisked acc) of
       Some err \<Rightarrow>
         (case WriteNegotiationRejection [] err of (r, written) \<Rightarrow> (r, so1, written))
     | None \<Rightarrow>
    (case writeAcceptance1 conn of
       Some err \<Rightarrow> (Some err, so1, [])
     | None \<Rightarrow>
    (case readRenterSig conn of
       Inl err \<Rightarrow> (Some err, so1, [AcceptFrame])
     | Inr renterSig \<Rightarrow>
    (let cf = \<lparr>WholeTransaction = False, cf_FileContractRevisions = [0]\<rparr>;
         hostTxnSig = \<lparr>sig_ParentID = rev_ParentID revision, PublicKeyIndex = 1,
                       sig_CoveredFields = cf, Signature = []\<rparr>;
         txn = \<lparr>FileContractRevisions = [revision],
                TransactionSignatures = [renterSig, hostTxnSig]\<rparr>;
         sigHash = SigHash ext txn 1
     in
    (case SignHash ext sigHash (secretKey h) of
       Inl err \<Rightarrow> (Some err, so1, [AcceptFrame])
     | Inr encodedSig \<Rightarrow>
    (let txn' = txn\<lparr>TransactionSignatures :=
                        [renterSig, hostTxnSig\<lparr>Signature := encodedSig\<rparr>]\<rparr>
     in
    (case StandaloneValid ext txn' (blockHeight h) of
       Some err \<Rightarrow>
         (case WriteNegotiationRejection [AcceptFrame] err of
            (r, written) \<Rightarrow> (r, so1, written))
     | None \<Rightarrow>
    (if WholeTransaction (sig_CoveredFields renterSig)
     then (Some errRenterCoversWholeTransaction, so1, [AcceptFrame])
     else
    (let so2 = so1\<lparr>AnticipatedRevenue := AnticipatedRevenue so1 + storageRevenue acc,
                    ConfirmedRevenue := ConfirmedRevenue so1 + bandwidthRevenue acc,
                    RiskedCollateral := RiskedCollateral so1 + collateralRisked acc\<rparr>
     in
    (case modifyStorageObligation h so2 (sectorsRemoved acc) (sectorsGained acc)
            (gainedSectorData acc) of
       Some err \<Rightarrow>
         (case WriteNegotiationRejection [AcceptFrame] err of
            (r, written) \<Rightarrow> (r, so2, written))
     | None \<Rightarrow>
    (case writeAcceptance2 conn of
       Some err \<Rightarrow> (Some err, so2, [AcceptFrame])
     | None \<Rightarrow>
    (case writeSignature conn of
       Some err \<Rightarrow> (Some err, so2, [AcceptFrame, AcceptFrame])
     | None \<Rightarrow>
         (None, so2,
          [AcceptFrame, AcceptFrame,
           SignatureFrame (hostTxnSig\<lparr>Signature := encodedSig\<rparr>)]))))))))))))))))))"

section \<open>The session\<close>

text \<open>
  Modelled from the spec: \<^verbatim>\<open>h.lockStorageObligation\<close> and \<^verbatim>\<open>h.unlockStorageObligation\<close>
  are not in this file. The spec has a per-obligation exclusive lock whose acquisition
  fails fast if the lock is already held; the table of held locks is the set of the
  identifiers of the locked obligations.
\<close>
definition lockStorageObligation :: "nat set \<Rightarrow> storageObligation \<Rightarrow> error + nat set" where
  "lockStorageObligation locked so =
     (if so_id so \<in> locked then Inl (errExternal ''obligation is locked'')
      else Inr (insert (so_id so) locked))"

definition unlockStorageObligation ::
  "nat set \<Rightarrow> storageObligation \<Rightarrow> error option \<times> nat set" where
  "unlockStorageObligation locked so =
     (if so_id so \<in> locked then (None, locked - {so_id so})
      else (Some (errExternal ''obligation is not locked''), locked))"

text \<open>What a session does that others can see, in order.\<close>
datatype event = Locked nat | Wrote frame | UnlockCalled nat | LoggedCritical error

text \<open>
  The surroundings of one session: the reading of \<^verbatim>\<open>time.Now()\<close> at entry (in
  nanoseconds), the answer of \<^verbatim>\<open>h.managedRPCRecentRevision\<close>, and for every evaluation
  of the loop condition the clock reading there, with the host and the peer of the round
  that follows it.
\<close>
record sessionScript =
  startTime :: nat
  recentRevision :: "error + storageObligation"
  rounds :: "(nat \<times> Host \<times> connScript) list"

definition Second :: nat where
  "Second = 1000000000"

text \<open>
  The loop of \<^verbatim>\<open>managedRPCReviseContract\<close> (lines 270 to 278). The script is finite; a
  loop that is still running when the script ends has no result (\<open>None\<close>).
\<close>
fun revisionLoop ::
  "externals \<Rightarrow> nat \<Rightarrow> (nat \<times> Host \<times> connScript) list \<Rightarrow> storageObligation
     \<Rightarrow> (error option \<times> storageObligation \<times> frame list) option" where
  "revisionLoop ext start [] so = None"
| "revisionLoop ext start ((now, h, conn) # rest) so =
     (if now < start + 1200 * Second then
        (case managedRevisionIteration ext h conn so of
           (Some err, so', written) \<Rightarrow>
             if err = ErrStopResponse then Some (None, so', written)
             else Some (Some err, so', written)
         | (None, so', written) \<Rightarrow>
             (case revisionLoop ext start rest so' of
                None \<Rightarrow> None
              | Some (r, so'', written') \<Rightarrow> Some (r, so'', written @ written')))
      else Some (None, so, []))"

text \<open>
  \<^verbatim>\<open>managedRPCReviseContract\<close> (lines 245 to 279): the returned error, the table of locks
  and the events of the session. The deferred function runs after the loop has produced
  the value to return, whatever that value is.
\<close>
definition managedRPCReviseContract ::
  "externals \<Rightarrow> nat set \<Rightarrow> sessionScript
     \<Rightarrow> (error option \<times> nat set \<times> event list) option" where
  "managedRPCReviseContract ext locked script =
    (case recentRevision script of
       Inl err \<Rightarrow> Some (Some err, locked, [])
     | Inr so \<Rightarrow>
    (case lockStorageObligation locked so of
       Inl err \<Rightarrow> Some (Some err, locked, [])
     | Inr locked1 \<Rightarrow>
    (case revisionLoop ext (startTime script) (rounds script) so of
       None \<Rightarrow> None
     | Some (r, so', written) \<Rightarrow>
         (case unlockStorageObligation locked1 so' of
            (uerr, locked2) \<Rightarrow>
              Some (r, locked2,
                    [Locked (so_id so)] @ map Wrote written @ [UnlockCalled (so_id so')]
                    @ (case uerr of None \<Rightarrow> [] | Some err \<Rightarrow> [LoggedCritical err]))))))"

section \<open>Concrete inputs\<close>

text \<open>
  A small instance on which the theorems below are exercised: sectors of two bytes, a
  root function that reverses the sector, and a sector store that holds, for every root,
  the sector with that root.
\<close>
definition ext0 :: externals where
  "ext0 = \<lparr>SectorSize = 2, MerkleRoot = rev, SigHash = (\<lambda>txn i. [0]),
           SignHash = (\<lambda>hash key. Inr (hash @ key)),
           StandaloneValid = (\<lambda>txn height. None)\<rparr>"

definition settings0 :: HostInternalSettings where
  "settings0 = \<lparr>MaxReviseBatchSize = 1000, MinimumUploadBandwidthPrice = 3,
                MinimumStoragePrice = 5, Collateral = 7\<rparr>"

definition host0 :: Host where
  "host0 = \<lparr>settings = settings0, secretKey = [9], blockHeight = 10,
            readSector = (\<lambda>root. Inr (rev root)),
            modifyStorageObligation = (\<lambda>so removed gained data. None)\<rparr>"

definition so0 :: storageObligation where
  "so0 = \<lparr>so_id = 1, SectorRoots = [[1, 2], [3, 4]], AnticipatedRevenue = 100,
          ConfirmedRevenue = 200, RiskedCollateral = 300, proofDeadline = 15,
          RevisionNumber = 4\<rparr>"

definition action :: "Specifier \<Rightarrow> uint64 \<Rightarrow> uint64 \<Rightarrow> byte list \<Rightarrow> RevisionAction" where
  "action t i off d = \<lparr>Type = t, SectorIndex = i, Offset = off, Data = d\<rparr>"

text \<open>The same obligation with its proof deadline already behind the host's block height.\<close>
definition so_expired :: storageObligation where
  "so_expired = so0\<lparr>proofDeadline := 9\<rparr>"

text \<open>
  A peer that goes through a whole round: it accepts the settings, sends one Insert at
  the end of the list, a revision and a signature restricted to the revision.
\<close>
definition revision0 :: FileContractRevision where
  "revision0 = \<lparr>rev_ParentID = [1], NewRevisionNumber = 5\<rparr>"

definition renterSig0 :: TransactionSignature where
  "renterSig0 = \<lparr>sig_ParentID = [1], PublicKeyIndex = 0,
                 sig_CoveredFields = \<lparr>WholeTransaction = False, cf_FileContractRevisions = [0]\<rparr>,
                 Signature = [5]\<rparr>"

definition conn0 :: connScript where
  "conn0 = \<lparr>rpcSettings = None, readAcceptance = None,
            readModifications = Inr [action ActionInsert 2 0 [7, 8]],
            readRevision = Inr revision0, writeAcceptance1 = None,
            readRenterSig = Inr renterSig0, writeAcceptance2 = None, writeSignature = None\<rparr>"

text \<open>The signature the host sends back in that round.\<close>
definition hostSig0 :: TransactionSignature where
  "hostSig0 = \<lparr>sig_ParentID = [1], PublicKeyIndex = 1,
       sig_CoveredFields = \<lparr>WholeTransaction = False, cf_FileContractRevisions = [0]\<rparr>,
       Signature = [0, 9]\<rparr>"

text \<open>
  Three sessions on that obligation: the peer stops after one round; the clock passes the
  session's duration after one round; the connection fails while the revision is read.
\<close>
definition session_stop :: sessionScript where
  "session_stop = \<lparr>startTime = 0, recentRevision = Inr so0,
      rounds = [(1, host0, conn0), (2, host0, conn0\<lparr>readAcceptance := Some ErrStopResponse\<rparr>)]\<rparr>"

definition session_timeout :: sessionScript where
  "session_timeout = \<lparr>startTime = 0, recentRevision = Inr so0,
      rounds = [(1, host0, conn0), (1200 * Second, host0, conn0)]\<rparr>"

definition session_error :: sessionScript where
  "session_error = \<lparr>startTime = 0, recentRevision = Inr so0,
      rounds = [(1, host0, conn0\<lparr>readRevision := Inl (errExternal ''connection reset'')\<rparr>)]\<rparr>"

section \<open>Facts about one modification\<close>

lemmas test_defs = ext0_def settings0_def host0_def so0_def action_def zeroAccumulators_def

lemma applyModification_Insert:
  assumes "Type m = ActionInsert"
    and "unat (SectorIndex m) \<le> length (SectorRoots so)"
    and "length (Data m) = unat (SectorSize ext)"
  shows "applyModification ext h (so, acc) m =
     Inr (so\<lparr>SectorRoots := take (unat (SectorIndex m)) (SectorRoots so)
                 @ MerkleRoot ext (Data m) # drop (unat (SectorIndex m)) (SectorRoots so)\<rparr>,
          acc\<lparr>bandwidthRevenue := bandwidthRevenue acc
                   + MinimumUploadBandwidthPrice (settings h) * unat (SectorSize ext),
              storageRevenue := storageRevenue acc
                   + MinimumStoragePrice (settings h)
                     * (unat (proofDeadline so - blockHeight h) * unat (SectorSize ext)),
              collateralRisked := collateralRisked acc
                   + Collateral (settings h)
                     * (unat (proofDeadline so - blockHeight h) * unat (SectorSize ext)),
              sectorsGained := sectorsGained acc @ [MerkleRoot ext (Data m)],
              gainedSectorData := gainedSectorData acc @ [Data m]\<rparr>)"
  using assms by (simp add: applyModification_def Let_def NewCurrency64_def)

lemma applyModification_Insert_bad_size:
  assumes "Type m = ActionInsert"
    and "unat (SectorIndex m) \<le> length (SectorRoots so)"
    and "length (Data m) \<le> unat (SectorSize ext)"
    and "length (Data m) \<noteq> unat (SectorSize ext)"
  shows "applyModification ext h (so, acc) m = Inl errBadSectorSize"
  using assms by (simp add: applyModification_def Let_def)

section \<open>Insert\<close>

text \<open>
  C5. An Insert at index \<open>i\<close> (\<open>i \<le> n\<close>) into a list of \<open>n\<close> sector roots, with a payload
  no longer than the sector size: a payload whose length differs from the sector size is
  answered with \<open>errBadSectorSize\<close>; otherwise the new list has \<open>n + 1\<close> roots, the root
  at \<open>i\<close> is the Merkle root of the payload, the roots before \<open>i\<close> are unchanged, the
  roots at and after \<open>i\<close> have moved up by one, and the new root and its payload are
  appended to the gained sectors.
\<close>
theorem insert_updates_sector_roots:
  assumes "Type m = ActionInsert"
    and "unat (SectorIndex m) = i"
    and "i \<le> length (SectorRoots so)"
    and "length (Data m) \<le> unat (SectorSize ext)"
  shows "(length (Data m) \<noteq> unat (SectorSize ext)
            \<longrightarrow> applyModification ext h (so, acc) m = Inl errBadSectorSize)
       \<and> (length (Data m) = unat (SectorSize ext)
            \<longrightarrow> (\<exists>so' acc'. applyModification ext h (so, acc) m = Inr (so', acc')
                   \<and> length (SectorRoots so') = length (SectorRoots so) + 1
                   \<and> SectorRoots so' ! i = MerkleRoot ext (Data m)
                   \<and> (\<forall>j < i. SectorRoots so' ! j = SectorRoots so ! j)
                   \<and> (\<forall>j. i \<le> j \<and> j < length (SectorRoots so)
                          \<longrightarrow> SectorRoots so' ! (j + 1) = SectorRoots so ! j)
                   \<and> sectorsGained acc' = sectorsGained acc @ [MerkleRoot ext (Data m)]
                   \<and> gainedSectorData acc' = gainedSectorData acc @ [Data m]))"
proof (intro conjI impI)
  assume "length (Data m) \<noteq> unat (SectorSize ext)"
  with assms show "applyModification ext h (so, acc) m = Inl errBadSectorSize"
    by (simp add: applyModification_Insert_bad_size)
next
  assume len: "length (Data m) = unat (SectorSize ext)"
  let ?roots = "take i (SectorRoots so) @ MerkleRoot ext (Data m) # drop i (SectorRoots so)"
  have at_i: "?roots ! i = MerkleRoot ext (Data m)"
    using assms(3) by (simp add: nth_append)
  have before: "\<forall>j < i. ?roots ! j = SectorRoots so ! j"
    using assms(3) by (simp add: nth_append)
  have after: "\<forall>j. i \<le> j \<and> j < length (SectorRoots so) \<longrightarrow> ?roots ! (j + 1) = SectorRoots so ! j"
    using assms(3) by (auto simp: nth_append Suc_diff_le)
  have len': "length ?roots = length (SectorRoots so) + 1"
    using assms(3) by simp
  show "\<exists>so' acc'. applyModification ext h (so, acc) m = Inr (so', acc')
                   \<and> length (SectorRoots so') = length (SectorRoots so) + 1
                   \<and> SectorRoots so' ! i = MerkleRoot ext (Data m)
                   \<and> (\<forall>j < i. SectorRoots so' ! j = SectorRoots so ! j)
                   \<and> (\<forall>j. i \<le> j \<and> j < length (SectorRoots so)
                          \<longrightarrow> SectorRoots so' ! (j + 1) = SectorRoots so ! j)
                   \<and> sectorsGained acc' = sectorsGained acc @ [MerkleRoot ext (Data m)]
                   \<and> gainedSectorData acc' = gainedSectorData acc @ [Data m]"
    using applyModification_Insert[of m so ext h acc] assms(1,2,3) len at_i before after len'
    by simp
qed

theorem insert_updates_sector_roots_witness:
  "applyModification ext0 host0 (so0, zeroAccumulators) (action ActionInsert 1 0 [7]) = Inl errBadSectorSize
   \<and> (\<exists>so' acc'. applyModification ext0 host0 (so0, zeroAccumulators) (action ActionInsert 1 0 [7, 8]) = Inr (so', acc')
        \<and> SectorRoots so' = [[1, 2], [8, 7], [3, 4]]
        \<and> sectorsGained acc' = [[8, 7]] \<and> gainedSectorData acc' = [[7, 8]])"
  using insert_updates_sector_roots[of "action ActionInsert 1 0 [7]" 1 so0 ext0 host0 zeroAccumulators]
        insert_updates_sector_roots[of "action ActionInsert 1 0 [7, 8]" 1 so0 ext0 host0 zeroAccumulators]
  by (simp add: test_defs applyModification_def Let_def NewCurrency64_def)

text \<open>
  C6. A valid Insert processed at block height \<open>h\<close> with proof deadline \<open>d\<close>, \<open>h \<le> d\<close>,
  adds exactly the upload price times the sector size to the bandwidth revenue, the
  storage price times \<open>(d - h)\<close> times the sector size to the storage revenue, and the
  collateral price times \<open>(d - h)\<close> times the sector size to the risked collateral, in
  exact (unbounded) integer arithmetic.
\<close>
theorem insert_accrues_revenue:
  assumes "Type m = ActionInsert"
    and "unat (SectorIndex m) \<le> length (SectorRoots so)"
    and "length (Data m) = unat (SectorSize ext)"
    and "blockHeight h \<le> proofDeadline so"
  shows "\<exists>so' acc'. applyModification ext h (so, acc) m = Inr (so', acc')
           \<and> bandwidthRevenue acc' = bandwidthRevenue acc
                + MinimumUploadBandwidthPrice (settings h) * unat (SectorSize ext)
           \<and> storageRevenue acc' = storageRevenue acc
                + MinimumStoragePrice (settings h)
                  * ((unat (proofDeadline so) - unat (blockHeight h)) * unat (SectorSize ext))
           \<and> collateralRisked acc' = collateralRisked acc
                + Collateral (settings h)
                  * ((unat (proofDeadline so) - unat (blockHeight h)) * unat (SectorSize ext))"
proof -
  have "unat (proofDeadline so - blockHeight h) = unat (proofDeadline so) - unat (blockHeight h)"
    using assms(4) by (rule unat_sub)
  then show ?thesis
    using applyModification_Insert[OF assms(1,2,3), of h acc] by simp
qed

theorem insert_accrues_revenue_witness:
  "\<exists>so' acc'. applyModification ext0 host0 (so0, zeroAccumulators) (action ActionInsert 2 0 [7, 8])
        = Inr (so', acc')
     \<and> bandwidthRevenue acc' = 6 \<and> storageRevenue acc' = 50 \<and> collateralRisked acc' = 70"
  using insert_accrues_revenue[of "action ActionInsert 2 0 [7, 8]" so0 ext0 host0 zeroAccumulators]
  by (simp add: test_defs)

text \<open>
  C10. An Insert processed when the block height exceeds the proof deadline returns no
  error: the subtraction \<open>proofDeadline - blockHeight\<close> is unsigned 64-bit and unguarded,
  so the blocks remaining are \<open>2^64 + d - h\<close>, and storage revenue and risked collateral
  grow by the prices times that wrapped value times the sector size.
\<close>
theorem insert_past_deadline_wraps:
  assumes "Type m = ActionInsert"
    and "unat (SectorIndex m) \<le> length (SectorRoots so)"
    and "length (Data m) = unat (SectorSize ext)"
    and "proofDeadline so < blockHeight h"
  shows "\<exists>so' acc'. applyModification ext h (so, acc) m = Inr (so', acc')
           \<and> storageRevenue acc' = storageRevenue acc
                + MinimumStoragePrice (settings h)
                  * ((2 ^ 64 + unat (proofDeadline so) - unat (blockHeight h))
                     * unat (SectorSize ext))
           \<and> collateralRisked acc' = collateralRisked acc
                + Collateral (settings h)
                  * ((2 ^ 64 + unat (proofDeadline so) - unat (blockHeight h))
                     * unat (SectorSize ext))"
proof -
  have "unat (blockHeight h) > unat (proofDeadline so)"
    using assms(4) by (simp add: word_less_nat_alt)
  then have "unat (proofDeadline so - blockHeight h)
      = 2 ^ 64 + unat (proofDeadline so) - unat (blockHeight h)"
    by (simp add: unat_sub_if_size word_size)
  then show ?thesis
    using applyModification_Insert[OF assms(1,2,3), of h acc] by simp
qed

theorem insert_past_deadline_wraps_witness:
  "\<exists>so' acc'. applyModification ext0 host0 (so_expired, zeroAccumulators) (action ActionInsert 2 0 [7, 8])
        = Inr (so', acc')
     \<and> storageRevenue acc' = 5 * (18446744073709551615 * 2)
     \<and> collateralRisked acc' = 7 * (18446744073709551615 * 2)"
  using insert_past_deadline_wraps[of "action ActionInsert 2 0 [7, 8]" so_expired ext0 host0 zeroAccumulators]
  by (simp add: test_defs so_expired_def)


section \<open>The checks of a modification\<close>

lemma processModifications_append:
  "processModifications ext h st (pre @ post) =
     (case processModifications ext h st pre of
        (None, st') \<Rightarrow> processModifications ext h st' post
      | (Some err, st') \<Rightarrow> (Some err, st'))"
  by (induction pre arbitrary: st) (auto split: sum.splits)

lemma processModifications_fails_at:
  assumes "processModifications ext h st pre = (None, st')"
    and "applyModification ext h st' m = Inl err"
  shows "processModifications ext h st (pre @ m # rest) = (Some err, st')"
  using assms by (simp add: processModifications_append)

lemma applyModification_bad_index:
  assumes "(Type m = ActionInsert \<and> length (SectorRoots (fst st)) < unat (SectorIndex m))
         \<or> (Type m \<noteq> ActionInsert \<and> length (SectorRoots (fst st)) \<le> unat (SectorIndex m))"
  shows "applyModification ext h st m = Inl errBadModificationIndex"
  using assms by (auto simp: applyModification_def Let_def)

lemma applyModification_large_sector:
  assumes "indexInBounds (fst st) m"
    and "unat (SectorSize ext) < length (Data m)"
  shows "applyModification ext h st m = Inl errLargeSector"
  using assms by (auto simp: applyModification_def Let_def indexInBounds_def split: if_splits)

lemma applyModification_unknown:
  assumes "indexInBounds (fst st) m"
    and "length (Data m) \<le> unat (SectorSize ext)"
    and "Type m \<noteq> ActionInsert" "Type m \<noteq> ActionDelete" "Type m \<noteq> ActionModify"
  shows "applyModification ext h st m = Inl errUnknownModification"
  using assms by (auto simp: applyModification_def Let_def indexInBounds_def split: if_splits)

text \<open>
  C4, as the code has it. A modification is judged against the list as the earlier
  modifications of the batch left it, and the checks come in a fixed order. An Insert
  with index above the current length, or any other modification with index at or above
  it, ends the batch with \<open>errBadModificationIndex\<close>. A modification that passes the
  index check and whose payload is longer than the sector size ends it with
  \<open>errLargeSector\<close>. A modification that passes both checks and whose type is none of
  Insert, Delete and Modify ends it with \<open>errUnknownModification\<close>. In each case the
  obligation and the accumulators stay as the earlier modifications left them.
\<close>
theorem modification_checks_in_order:
  assumes "processModifications ext h st pre = (None, (so', acc'))"
  shows "((Type m = ActionInsert \<and> length (SectorRoots so') < unat (SectorIndex m))
          \<or> (Type m \<noteq> ActionInsert \<and> length (SectorRoots so') \<le> unat (SectorIndex m))
          \<longrightarrow> processModifications ext h st (pre @ m # rest)
                = (Some errBadModificationIndex, (so', acc')))
       \<and> (indexInBounds so' m \<and> unat (SectorSize ext) < length (Data m)
          \<longrightarrow> processModifications ext h st (pre @ m # rest)
                = (Some errLargeSector, (so', acc')))
       \<and> (indexInBounds so' m \<and> length (Data m) \<le> unat (SectorSize ext)
            \<and> Type m \<noteq> ActionInsert \<and> Type m \<noteq> ActionDelete \<and> Type m \<noteq> ActionModify
          \<longrightarrow> processModifications ext h st (pre @ m # rest)
                = (Some errUnknownModification, (so', acc')))"
proof (intro conjI impI)
  assume "(Type m = ActionInsert \<and> length (SectorRoots so') < unat (SectorIndex m))
          \<or> (Type m \<noteq> ActionInsert \<and> length (SectorRoots so') \<le> unat (SectorIndex m))"
  then have "applyModification ext h (so', acc') m = Inl errBadModificationIndex"
    by (intro applyModification_bad_index) simp
  with assms show "processModifications ext h st (pre @ m # rest)
                = (Some errBadModificationIndex, (so', acc'))"
    by (rule processModifications_fails_at)
next
  assume "indexInBounds so' m \<and> unat (SectorSize ext) < length (Data m)"
  then have "applyModification ext h (so', acc') m = Inl errLargeSector"
    by (intro applyModification_large_sector) simp_all
  with assms show "processModifications ext h st (pre @ m # rest)
                = (Some errLargeSector, (so', acc'))"
    by (rule processModifications_fails_at)
next
  assume "indexInBounds so' m \<and> length (Data m) \<le> unat (SectorSize ext)
            \<and> Type m \<noteq> ActionInsert \<and> Type m \<noteq> ActionDelete \<and> Type m \<noteq> ActionModify"
  then have "applyModification ext h (so', acc') m = Inl errUnknownModification"
    by (intro applyModification_unknown) simp_all
  with assms show "processModifications ext h st (pre @ m # rest)
                = (Some errUnknownModification, (so', acc'))"
    by (rule processModifications_fails_at)
qed

theorem modification_checks_in_order_witness:
  "fst (processModifications ext0 host0 (so0, zeroAccumulators)
          ([action ActionDelete 0 0 []] @ action ActionModify 1 0 [] # [])) = Some errBadModificationIndex
   \<and> fst (processModifications ext0 host0 (so0, zeroAccumulators)
          ([action ActionDelete 0 0 []] @ action ActionInsert 2 0 [] # [])) = Some errBadModificationIndex
   \<and> fst (processModifications ext0 host0 (so0, zeroAccumulators)
          ([action ActionDelete 0 0 []] @ action ActionModify 0 0 [1, 2, 3] # [])) = Some errLargeSector
   \<and> fst (processModifications ext0 host0 (so0, zeroAccumulators)
          ([action ActionDelete 0 0 []] @ action (OtherSpecifier ''Append'') 0 0 [1, 2] # []))
        = Some errUnknownModification"
proof -
  let ?so = "so0\<lparr>SectorRoots := [[3, 4]]\<rparr>"
  let ?acc = "zeroAccumulators\<lparr>sectorsRemoved := [[1, 2]]\<rparr>"
  have pre: "processModifications ext0 host0 (so0, zeroAccumulators) [action ActionDelete 0 0 []]
      = (None, (?so, ?acc))"
    by (simp add: test_defs applyModification_def Let_def)
  show ?thesis
    using modification_checks_in_order[OF pre, of "action ActionModify 1 0 []" "[]"]
          modification_checks_in_order[OF pre, of "action ActionInsert 2 0 []" "[]"]
          modification_checks_in_order[OF pre, of "action ActionModify 0 0 [1, 2, 3]" "[]"]
          modification_checks_in_order[OF pre, of "action (OtherSpecifier ''Append'') 0 0 [1, 2]" "[]"]
    by (simp add: test_defs indexInBounds_def)
qed

text \<open>
  C4 as stated does not hold: a payload longer than the sector size, and a type the host
  does not know, are both answered with \<open>errBadModificationIndex\<close> when the index is out
  of range, because the index is checked first.
\<close>
theorem large_payload_not_always_LargeSector:
  "unat (SectorSize ext0) < length (Data (action ActionDelete 5 0 [1, 2, 3]))
   \<and> fst (processModifications ext0 host0 (so0, zeroAccumulators) [action ActionDelete 5 0 [1, 2, 3]])
       = Some errBadModificationIndex
   \<and> Type (action (OtherSpecifier ''Append'') 5 0 []) \<noteq> ActionInsert
   \<and> Type (action (OtherSpecifier ''Append'') 5 0 []) \<noteq> ActionDelete
   \<and> Type (action (OtherSpecifier ''Append'') 5 0 []) \<noteq> ActionModify
   \<and> fst (processModifications ext0 host0 (so0, zeroAccumulators) [action (OtherSpecifier ''Append'') 5 0 []])
       = Some errBadModificationIndex"
  by (simp add: test_defs applyModification_def Let_def)


section \<open>Modify\<close>

lemma offset_sum_no_wrap:
  fixes off S :: uint64
  assumes "l \<le> unat S" and "unat S < 2 ^ 63" and "off \<le> S"
  shows "unat (off + word_of_nat l) = unat off + l"
proof -
  have l: "unat (word_of_nat l :: uint64) = l"
    using assms(1) by (rule le_unat_uoi)
  have "unat off \<le> unat S"
    using assms(3) by (simp add: word_le_nat_alt)
  with assms(1,2) l have "unat off + unat (word_of_nat l :: uint64) < 2 ^ LENGTH(64)"
    by simp
  then have "unat (off + word_of_nat l) = unat off + unat (word_of_nat l :: uint64)"
    by (rule unat_add_lem[THEN iffD1])
  with l show ?thesis by simp
qed

lemma offset_check:
  fixes off S :: uint64
  assumes "l \<le> unat S" and "unat S < 2 ^ 63"
  shows "(S < off \<or> S < off + word_of_nat l) = (unat S < unat off \<or> unat S < unat off + l)"
proof (cases "off \<le> S")
  case True
  then show ?thesis
    using offset_sum_no_wrap[OF assms True] by (simp add: word_less_nat_alt word_le_nat_alt)
next
  case False
  then show ?thesis by (simp add: word_less_nat_alt word_le_nat_alt)
qed

lemma copyAt_within:
  assumes "off + length data \<le> length sector"
  shows "copyAt sector off data = take off sector @ data @ drop (off + length data) sector"
  using assms by (simp add: copyAt_def)

lemma applyModification_Modify_illegal:
  assumes "Type m = ActionModify"
    and "unat (SectorIndex m) < length (SectorRoots so)"
    and "length (Data m) \<le> unat (SectorSize ext)"
    and "unat (SectorSize ext) < 2 ^ 63"
    and "unat (SectorSize ext) < unat (Offset m)
         \<or> unat (SectorSize ext) < unat (Offset m) + length (Data m)"
  shows "applyModification ext h (so, acc) m = Inl errIllegalOffsetAndLength"
  using assms(1,2,3) offset_check[OF assms(3,4), of "Offset m"] assms(5)
  by (simp add: applyModification_def Let_def)

lemma applyModification_Modify:
  assumes "Type m = ActionModify"
    and "unat (SectorIndex m) < length (SectorRoots so)"
    and "length (Data m) \<le> unat (SectorSize ext)"
    and "unat (SectorSize ext) < 2 ^ 63"
    and "unat (Offset m) + length (Data m) \<le> unat (SectorSize ext)"
    and "readSector h (SectorRoots so ! unat (SectorIndex m)) = Inr sector"
    and "unat (Offset m) \<le> length sector"
  shows "applyModification ext h (so, acc) m =
     Inr (so\<lparr>SectorRoots := (SectorRoots so)
                 [unat (SectorIndex m) := MerkleRoot ext (copyAt sector (unat (Offset m)) (Data m))]\<rparr>,
          acc\<lparr>bandwidthRevenue := bandwidthRevenue acc
                   + MinimumUploadBandwidthPrice (settings h) * unat (SectorSize ext),
              sectorsRemoved := sectorsRemoved acc @ [SectorRoots so ! unat (SectorIndex m)],
              sectorsGained := sectorsGained acc
                   @ [MerkleRoot ext (copyAt sector (unat (Offset m)) (Data m))],
              gainedSectorData := gainedSectorData acc
                   @ [copyAt sector (unat (Offset m)) (Data m)]\<rparr>)"
proof -
  have "\<not> (SectorSize ext < Offset m \<or> SectorSize ext < Offset m + word_of_nat (length (Data m)))"
    using offset_check[OF assms(3,4), of "Offset m"] assms(5) by simp
  then show ?thesis
    using assms(1,2,3,6,7) by (simp add: applyModification_def Let_def NewCurrency64_def)
qed

text \<open>
  C7, as the code has it. A Modify at a valid index \<open>i\<close> with offset \<open>o\<close> and data of
  length \<open>l\<close>, where \<open>l\<close> does not exceed the sector size (and the sector size is below
  \<open>2^63\<close>, so that \<open>o + l\<close> cannot wrap): if \<open>o\<close> or \<open>o + l\<close> exceeds the sector size the
  result is \<open>errIllegalOffsetAndLength\<close>. Otherwise, when the sector store hands back a
  full sector for the root at \<open>i\<close>, bytes \<open>o..o+l\<close> of it are overlaid with the data, the
  root at \<open>i\<close> becomes the Merkle root of the resulting sector, the length of the list and
  every other index are unchanged, the old root is appended to the removed sectors, the
  new root and the full new sector to the gained ones, and only the bandwidth revenue
  grows (upload price times sector size).
\<close>
theorem modify_overlays_sector:
  assumes "Type m = ActionModify"
    and "unat (SectorIndex m) = i"
    and "i < length (SectorRoots so)"
    and "unat (Offset m) = off"
    and "length (Data m) \<le> unat (SectorSize ext)"
    and "unat (SectorSize ext) < 2 ^ 63"
  shows "(unat (SectorSize ext) < off \<or> unat (SectorSize ext) < off + length (Data m)
            \<longrightarrow> applyModification ext h (so, acc) m = Inl errIllegalOffsetAndLength)
       \<and> (off + length (Data m) \<le> unat (SectorSize ext)
            \<and> readSector h (SectorRoots so ! i) = Inr sector
            \<and> length sector = unat (SectorSize ext)
            \<longrightarrow> (\<exists>so' acc' sector'.
                   applyModification ext h (so, acc) m = Inr (so', acc')
                   \<and> sector' = take off sector @ Data m @ drop (off + length (Data m)) sector
                   \<and> SectorRoots so' ! i = MerkleRoot ext sector'
                   \<and> length (SectorRoots so') = length (SectorRoots so)
                   \<and> (\<forall>j. j \<noteq> i \<longrightarrow> SectorRoots so' ! j = SectorRoots so ! j)
                   \<and> sectorsRemoved acc' = sectorsRemoved acc @ [SectorRoots so ! i]
                   \<and> sectorsGained acc' = sectorsGained acc @ [MerkleRoot ext sector']
                   \<and> gainedSectorData acc' = gainedSectorData acc @ [sector']
                   \<and> bandwidthRevenue acc' = bandwidthRevenue acc
                        + MinimumUploadBandwidthPrice (settings h) * unat (SectorSize ext)
                   \<and> storageRevenue acc' = storageRevenue acc
                   \<and> collateralRisked acc' = collateralRisked acc))"
proof (intro conjI impI)
  assume "unat (SectorSize ext) < off \<or> unat (SectorSize ext) < off + length (Data m)"
  with assms show "applyModification ext h (so, acc) m = Inl errIllegalOffsetAndLength"
    by (intro applyModification_Modify_illegal) simp_all
next
  assume a: "off + length (Data m) \<le> unat (SectorSize ext)
            \<and> readSector h (SectorRoots so ! i) = Inr sector
            \<and> length sector = unat (SectorSize ext)"
  let ?sector' = "take off sector @ Data m @ drop (off + length (Data m)) sector"
  have c: "copyAt sector off (Data m) = ?sector'"
    using a by (intro copyAt_within) simp
  have "applyModification ext h (so, acc) m =
     Inr (so\<lparr>SectorRoots := (SectorRoots so)[i := MerkleRoot ext ?sector']\<rparr>,
          acc\<lparr>bandwidthRevenue := bandwidthRevenue acc
                   + MinimumUploadBandwidthPrice (settings h) * unat (SectorSize ext),
              sectorsRemoved := sectorsRemoved acc @ [SectorRoots so ! i],
              sectorsGained := sectorsGained acc @ [MerkleRoot ext ?sector'],
              gainedSectorData := gainedSectorData acc @ [?sector']\<rparr>)"
    using applyModification_Modify[of m so ext h sector acc] assms a c by simp
  then show "\<exists>so' acc' sector'.
                   applyModification ext h (so, acc) m = Inr (so', acc')
                   \<and> sector' = take off sector @ Data m @ drop (off + length (Data m)) sector
                   \<and> SectorRoots so' ! i = MerkleRoot ext sector'
                   \<and> length (SectorRoots so') = length (SectorRoots so)
                   \<and> (\<forall>j. j \<noteq> i \<longrightarrow> SectorRoots so' ! j = SectorRoots so ! j)
                   \<and> sectorsRemoved acc' = sectorsRemoved acc @ [SectorRoots so ! i]
                   \<and> sectorsGained acc' = sectorsGained acc @ [MerkleRoot ext sector']
                   \<and> gainedSectorData acc' = gainedSectorData acc @ [sector']
                   \<and> bandwidthRevenue acc' = bandwidthRevenue acc
                        + MinimumUploadBandwidthPrice (settings h) * unat (SectorSize ext)
                   \<and> storageRevenue acc' = storageRevenue acc
                   \<and> collateralRisked acc' = collateralRisked acc"
    using assms(3) by simp
qed

theorem modify_overlays_sector_witness:
  "applyModification ext0 host0 (so0, zeroAccumulators) (action ActionModify 1 3 []) = Inl errIllegalOffsetAndLength
   \<and> applyModification ext0 host0 (so0, zeroAccumulators) (action ActionModify 1 1 [7, 8]) = Inl errIllegalOffsetAndLength
   \<and> (\<exists>so' acc'. applyModification ext0 host0 (so0, zeroAccumulators) (action ActionModify 1 1 [7])
          = Inr (so', acc')
        \<and> SectorRoots so' = [[1, 2], [7, 4]]
        \<and> sectorsRemoved acc' = [[3, 4]] \<and> sectorsGained acc' = [[7, 4]]
        \<and> gainedSectorData acc' = [[4, 7]]
        \<and> bandwidthRevenue acc' = 6 \<and> storageRevenue acc' = 0 \<and> collateralRisked acc' = 0)"
  using modify_overlays_sector[of "action ActionModify 1 3 []" 1 so0 3 ext0 host0 zeroAccumulators "[4, 3]"]
        modify_overlays_sector[of "action ActionModify 1 1 [7, 8]" 1 so0 1 ext0 host0 zeroAccumulators "[4, 3]"]
        modify_overlays_sector[of "action ActionModify 1 1 [7]" 1 so0 1 ext0 host0 zeroAccumulators "[4, 3]"]
  by (simp add: test_defs applyModification_def Let_def NewCurrency64_def copyAt_def)

text \<open>
  C7 as stated does not hold for data longer than a sector: with \<open>o + l\<close> above the sector
  size the result is then \<open>errLargeSector\<close>, from the payload check that precedes the
  dispatch on the type.
\<close>
theorem modify_large_payload_is_LargeSector:
  "Type (action ActionModify 1 0 [7, 8, 9]) = ActionModify
   \<and> unat (SectorIndex (action ActionModify 1 0 [7, 8, 9])) < length (SectorRoots so0)
   \<and> unat (SectorSize ext0)
       < unat (Offset (action ActionModify 1 0 [7, 8, 9])) + length (Data (action ActionModify 1 0 [7, 8, 9]))
   \<and> applyModification ext0 host0 (so0, zeroAccumulators) (action ActionModify 1 0 [7, 8, 9])
       = Inl errLargeSector"
  by (simp add: test_defs applyModification_def Let_def)


section \<open>Totals of a batch\<close>

lemma applyModification_Insert_totals:
  assumes "Type m = ActionInsert"
    and "applyModification ext h (so, acc) m = Inr (so', acc')"
  shows "proofDeadline so' = proofDeadline so
       \<and> bandwidthRevenue acc' = bandwidthRevenue acc
            + MinimumUploadBandwidthPrice (settings h) * unat (SectorSize ext)
       \<and> storageRevenue acc' = storageRevenue acc
            + MinimumStoragePrice (settings h)
              * (unat (proofDeadline so - blockHeight h) * unat (SectorSize ext))
       \<and> collateralRisked acc' = collateralRisked acc
            + Collateral (settings h)
              * (unat (proofDeadline so - blockHeight h) * unat (SectorSize ext))"
  using assms
  by (auto simp: applyModification_def Let_def NewCurrency64_def split: if_splits)

lemma applyModification_Modify_totals:
  assumes "Type m = ActionModify"
    and "applyModification ext h (so, acc) m = Inr (so', acc')"
  shows "proofDeadline so' = proofDeadline so
       \<and> bandwidthRevenue acc' = bandwidthRevenue acc
            + MinimumUploadBandwidthPrice (settings h) * unat (SectorSize ext)
       \<and> storageRevenue acc' = storageRevenue acc
       \<and> collateralRisked acc' = collateralRisked acc"
  using assms
  by (auto simp: applyModification_def Let_def NewCurrency64_def split: if_splits sum.splits)

lemma inserts_totals:
  assumes "\<forall>m \<in> set ms. Type m = ActionInsert"
    and "processModifications ext h (so, acc) ms = (None, (so', acc'))"
  shows "proofDeadline so' = proofDeadline so
       \<and> bandwidthRevenue acc' = bandwidthRevenue acc
            + length ms * (MinimumUploadBandwidthPrice (settings h) * unat (SectorSize ext))
       \<and> storageRevenue acc' = storageRevenue acc
            + length ms * (MinimumStoragePrice (settings h)
              * (unat (proofDeadline so - blockHeight h) * unat (SectorSize ext)))
       \<and> collateralRisked acc' = collateralRisked acc
            + length ms * (Collateral (settings h)
              * (unat (proofDeadline so - blockHeight h) * unat (SectorSize ext)))"
  using assms
proof (induction ms arbitrary: so acc)
  case Nil
  then show ?case by simp
next
  case (Cons m ms)
  from Cons.prems(2) obtain so1 acc1 where
    step: "applyModification ext h (so, acc) m = Inr (so1, acc1)" and
    rest: "processModifications ext h (so1, acc1) ms = (None, (so', acc'))"
    by (auto split: sum.splits)
  from Cons.prems(1) have m: "Type m = ActionInsert" and ms: "\<forall>m \<in> set ms. Type m = ActionInsert"
    by simp_all
  note one = applyModification_Insert_totals[OF m step]
  note more = Cons.IH[OF ms rest]
  from one more show ?case by (simp add: algebra_simps)
qed

lemma modifies_totals:
  assumes "\<forall>m \<in> set ms. Type m = ActionModify"
    and "processModifications ext h (so, acc) ms = (None, (so', acc'))"
  shows "bandwidthRevenue acc' = bandwidthRevenue acc
            + length ms * (MinimumUploadBandwidthPrice (settings h) * unat (SectorSize ext))
       \<and> storageRevenue acc' = storageRevenue acc
       \<and> collateralRisked acc' = collateralRisked acc"
  using assms
proof (induction ms arbitrary: so acc)
  case Nil
  then show ?case by simp
next
  case (Cons m ms)
  from Cons.prems(2) obtain so1 acc1 where
    step: "applyModification ext h (so, acc) m = Inr (so1, acc1)" and
    rest: "processModifications ext h (so1, acc1) ms = (None, (so', acc'))"
    by (auto split: sum.splits)
  from Cons.prems(1) have m: "Type m = ActionModify" and ms: "\<forall>m \<in> set ms. Type m = ActionModify"
    by simp_all
  note one = applyModification_Modify_totals[OF m step]
  note more = Cons.IH[OF ms rest]
  from one more show ?case by (simp add: algebra_simps)
qed

text \<open>
  C8. For a batch made only of Inserts, or only of Modifies, processed by the same host
  (same prices, block height and proof deadline): whenever the batch and a reordering of
  it are both processed to the end, they produce the same bandwidth revenue, storage
  revenue and risked collateral, and these totals are the per-operation amounts times
  the number of operations.
\<close>
theorem same_type_totals_order_independent:
  assumes "mset ms' = mset ms"
    and "(\<forall>m \<in> set ms. Type m = ActionInsert) \<or> (\<forall>m \<in> set ms. Type m = ActionModify)"
    and "processModifications ext h (so, acc) ms = (None, (so1, acc1))"
    and "processModifications ext h (so, acc) ms' = (None, (so2, acc2))"
  shows "bandwidthRevenue acc2 = bandwidthRevenue acc1
       \<and> storageRevenue acc2 = storageRevenue acc1
       \<and> collateralRisked acc2 = collateralRisked acc1
       \<and> bandwidthRevenue acc1 = bandwidthRevenue acc
            + length ms * (MinimumUploadBandwidthPrice (settings h) * unat (SectorSize ext))
       \<and> storageRevenue acc1 = storageRevenue acc
            + length (filter (\<lambda>m. Type m = ActionInsert) ms)
              * (MinimumStoragePrice (settings h)
                 * (unat (proofDeadline so - blockHeight h) * unat (SectorSize ext)))
       \<and> collateralRisked acc1 = collateralRisked acc
            + length (filter (\<lambda>m. Type m = ActionInsert) ms)
              * (Collateral (settings h)
                 * (unat (proofDeadline so - blockHeight h) * unat (SectorSize ext)))"
proof -
  have len: "length ms' = length ms"
    using assms(1) by (rule mset_eq_length)
  have set: "set ms' = set ms"
    using assms(1) by (rule mset_eq_setD)
  from assms(2) show ?thesis
  proof
    assume ins: "\<forall>m \<in> set ms. Type m = ActionInsert"
    then have ins': "\<forall>m \<in> set ms'. Type m = ActionInsert"
      using set by simp
    have f: "filter (\<lambda>m. Type m = ActionInsert) ms = ms"
      using ins by simp
    show ?thesis
      using inserts_totals[OF ins assms(3)] inserts_totals[OF ins' assms(4)] len f by simp
  next
    assume mod: "\<forall>m \<in> set ms. Type m = ActionModify"
    then have mod': "\<forall>m \<in> set ms'. Type m = ActionModify"
      using set by simp
    have f: "filter (\<lambda>m. Type m = ActionInsert) ms = []"
      using mod by (auto simp: filter_empty_conv)
    show ?thesis
      using modifies_totals[OF mod assms(3)] modifies_totals[OF mod' assms(4)] len f by simp
  qed
qed

theorem same_type_totals_order_independent_witness:
  "processModifications ext0 host0 (so0, zeroAccumulators)
       [action ActionInsert 0 0 [5, 6], action ActionInsert 2 0 [7, 8]]
     = (None, (so0\<lparr>SectorRoots := [[6, 5], [1, 2], [8, 7], [3, 4]]\<rparr>,
               zeroAccumulators\<lparr>bandwidthRevenue := 12, storageRevenue := 100,
                  collateralRisked := 140, sectorsGained := [[6, 5], [8, 7]],
                  gainedSectorData := [[5, 6], [7, 8]]\<rparr>))
   \<and> processModifications ext0 host0 (so0, zeroAccumulators)
       [action ActionInsert 2 0 [7, 8], action ActionInsert 0 0 [5, 6]]
     = (None, (so0\<lparr>SectorRoots := [[6, 5], [1, 2], [3, 4], [8, 7]]\<rparr>,
               zeroAccumulators\<lparr>bandwidthRevenue := 12, storageRevenue := 100,
                  collateralRisked := 140, sectorsGained := [[8, 7], [6, 5]],
                  gainedSectorData := [[7, 8], [5, 6]]\<rparr>))
   \<and> processModifications ext0 host0 (so0, zeroAccumulators)
       [action ActionModify 0 0 [9], action ActionModify 1 1 [7]]
     = (None, (so0\<lparr>SectorRoots := [[1, 9], [7, 4]]\<rparr>,
               zeroAccumulators\<lparr>bandwidthRevenue := 12,
                  sectorsRemoved := [[1, 2], [3, 4]], sectorsGained := [[1, 9], [7, 4]],
                  gainedSectorData := [[9, 1], [4, 7]]\<rparr>))
   \<and> processModifications ext0 host0 (so0, zeroAccumulators)
       [action ActionModify 1 1 [7], action ActionModify 0 0 [9]]
     = (None, (so0\<lparr>SectorRoots := [[1, 9], [7, 4]]\<rparr>,
               zeroAccumulators\<lparr>bandwidthRevenue := 12,
                  sectorsRemoved := [[3, 4], [1, 2]], sectorsGained := [[7, 4], [1, 9]],
                  gainedSectorData := [[4, 7], [9, 1]]\<rparr>))"
proof -
  let ?a = "action ActionInsert 0 0 [5, 6]" and ?b = "action ActionInsert 2 0 [7, 8]"
  let ?c = "action ActionModify 0 0 [9]" and ?d = "action ActionModify 1 1 [7]"
  let ?so1 = "so0\<lparr>SectorRoots := [[6, 5], [1, 2], [8, 7], [3, 4]]\<rparr>"
  let ?so2 = "so0\<lparr>SectorRoots := [[6, 5], [1, 2], [3, 4], [8, 7]]\<rparr>"
  let ?so3 = "so0\<lparr>SectorRoots := [[1, 9], [7, 4]]\<rparr>"
  let ?acc1 = "zeroAccumulators\<lparr>bandwidthRevenue := 12, storageRevenue := 100,
                  collateralRisked := 140, sectorsGained := [[6, 5], [8, 7]],
                  gainedSectorData := [[5, 6], [7, 8]]\<rparr>"
  let ?acc2 = "zeroAccumulators\<lparr>bandwidthRevenue := 12, storageRevenue := 100,
                  collateralRisked := 140, sectorsGained := [[8, 7], [6, 5]],
                  gainedSectorData := [[7, 8], [5, 6]]\<rparr>"
  let ?acc3 = "zeroAccumulators\<lparr>bandwidthRevenue := 12,
                  sectorsRemoved := [[1, 2], [3, 4]], sectorsGained := [[1, 9], [7, 4]],
                  gainedSectorData := [[9, 1], [4, 7]]\<rparr>"
  let ?acc4 = "zeroAccumulators\<lparr>bandwidthRevenue := 12,
                  sectorsRemoved := [[3, 4], [1, 2]], sectorsGained := [[7, 4], [1, 9]],
                  gainedSectorData := [[4, 7], [9, 1]]\<rparr>"
  have perm: "mset [?b, ?a] = mset [?a, ?b]" "mset [?d, ?c] = mset [?c, ?d]"
    by simp_all
  have ty: "(\<forall>m \<in> set [?a, ?b]. Type m = ActionInsert) \<or> (\<forall>m \<in> set [?a, ?b]. Type m = ActionModify)"
           "(\<forall>m \<in> set [?c, ?d]. Type m = ActionInsert) \<or> (\<forall>m \<in> set [?c, ?d]. Type m = ActionModify)"
    by (simp_all add: action_def)
  have r1: "processModifications ext0 host0 (so0, zeroAccumulators) [?a, ?b] = (None, (?so1, ?acc1))"
    by (simp add: test_defs applyModification_def Let_def NewCurrency64_def)
  have r2: "processModifications ext0 host0 (so0, zeroAccumulators) [?b, ?a] = (None, (?so2, ?acc2))"
    by (simp add: test_defs applyModification_def Let_def NewCurrency64_def)
  have r3: "processModifications ext0 host0 (so0, zeroAccumulators) [?c, ?d] = (None, (?so3, ?acc3))"
    by (simp add: test_defs applyModification_def Let_def NewCurrency64_def copyAt_def)
  have r4: "processModifications ext0 host0 (so0, zeroAccumulators) [?d, ?c] = (None, (?so3, ?acc4))"
    by (simp add: test_defs applyModification_def Let_def NewCurrency64_def copyAt_def)
  show ?thesis
    using same_type_totals_order_independent[OF perm(1) ty(1) r1 r2]
          same_type_totals_order_independent[OF perm(2) ty(2) r3 r4] r1 r2 r3 r4
    by simp
qed

section \<open>One round\<close>

lemmas round_defs = managedRevisionIteration_def WriteNegotiationRejection_def verifyRevision_def
  applyModification_def Let_def NewCurrency64_def conn0_def renterSig0_def revision0_def

text \<open>
  C1, evaluated on the code. A batch whose second modification fails the index check
  leaves the obligation with the first modification applied: the round returns
  \<open>errBadModificationIndex\<close> and \<open>SectorRoots\<close> has lost its first root. A round whose
  commit step fails leaves the obligation with the inserted root and with the three
  counters already increased. The claim has the obligation unchanged in both cases.
\<close>
theorem failed_round_leaves_obligation_changed:
  "managedRevisionIteration ext0 host0
      (conn0\<lparr>readModifications := Inr [action ActionDelete 0 0 [], action ActionDelete 5 0 []]\<rparr>) so0
     = (Some errBadModificationIndex, so0\<lparr>SectorRoots := [[3, 4]]\<rparr>,
        [RejectFrame errBadModificationIndex])
   \<and> managedRevisionIteration ext0
      (host0\<lparr>modifyStorageObligation := (\<lambda>so removed gained data. Some (errExternal ''database''))\<rparr>)
      conn0 so0
     = (Some (errExternal ''database''),
        so0\<lparr>SectorRoots := [[1, 2], [3, 4], [8, 7]], AnticipatedRevenue := 150,
            ConfirmedRevenue := 206, RiskedCollateral := 370\<rparr>,
        [AcceptFrame, RejectFrame (errExternal ''database'')])"
  by (simp add: round_defs test_defs)

text \<open>
  C2, evaluated on the code. \<^verbatim>\<open>verifyRevision\<close> returns no error for a proposal whose
  revision number equals the prior one; the claim has it rejected.
\<close>
theorem verifyRevision_accepts_stale_revision_number:
  "\<not> RevisionNumber so0 < NewRevisionNumber (revision0\<lparr>NewRevisionNumber := 4\<rparr>)
   \<and> verifyRevision so0 (revision0\<lparr>NewRevisionNumber := 4\<rparr>) 0 0 0 = None"
  by (simp add: verifyRevision_def so0_def revision0_def)

lemma verifyRevision_returns_nil:
  "verifyRevision so revision storageRev bandwidthRev collateral = None"
  by (simp add: verifyRevision_def)

text \<open>
  C3, evaluated on the code. A renter signature that covers the whole transaction ends the
  round with the error, and the only frame written is the earlier acceptance: no
  rejection frame goes to the peer. The sibling path, a failed standalone validation,
  does write the rejection frame before it returns the error.
\<close>
theorem renter_overreach_sends_no_rejection:
  "managedRevisionIteration ext0 host0
      (conn0\<lparr>readRenterSig := Inr (renterSig0\<lparr>sig_CoveredFields :=
           \<lparr>WholeTransaction = True, cf_FileContractRevisions = []\<rparr>\<rparr>)\<rparr>) so0
     = (Some errRenterCoversWholeTransaction, so0\<lparr>SectorRoots := [[1, 2], [3, 4], [8, 7]]\<rparr>,
        [AcceptFrame])
   \<and> managedRevisionIteration
      (ext0\<lparr>StandaloneValid := (\<lambda>txn height. Some (errExternal ''invalid signature''))\<rparr>)
      host0 conn0 so0
     = (Some (errExternal ''invalid signature''), so0\<lparr>SectorRoots := [[1, 2], [3, 4], [8, 7]]\<rparr>,
        [AcceptFrame, RejectFrame (errExternal ''invalid signature'')])"
  by (simp add: round_defs test_defs)

section \<open>The session and its lock\<close>

lemma applyModification_so_id:
  "applyModification ext h (so, acc) m = Inr (so', acc') \<Longrightarrow> so_id so' = so_id so"
  by (auto simp: applyModification_def Let_def split: if_splits sum.splits)

lemma processModifications_so_id:
  "processModifications ext h (so, acc) ms = (r, (so', acc')) \<Longrightarrow> so_id so' = so_id so"
proof (induction ms arbitrary: so acc)
  case Nil
  then show ?case by simp
next
  case (Cons m ms)
  show ?case
  proof (cases "applyModification ext h (so, acc) m")
    case (Inl err)
    with Cons.prems show ?thesis by simp
  next
    case (Inr st)
    obtain so1 acc1 where st: "st = (so1, acc1)" by (cases st)
    from Inr st Cons.prems have "processModifications ext h (so1, acc1) ms = (r, (so', acc'))"
      by simp
    then have "so_id so' = so_id so1" by (rule Cons.IH)
    moreover have "so_id so1 = so_id so"
      using Inr st by (auto dest: applyModification_so_id)
    ultimately show ?thesis by simp
  qed
qed

lemma managedRevisionIteration_so_id:
  assumes "managedRevisionIteration ext h conn so = (r, so', written)"
  shows "so_id so' = so_id so"
proof -
  obtain e so1 acc where p: "processModifications ext h (so, zeroAccumulators)
      (case readModifications conn of Inr ms \<Rightarrow> ms | Inl err \<Rightarrow> []) = (e, (so1, acc))"
    by (metis surj_pair)
  have id1: "so_id so1 = so_id so"
    using p by (rule processModifications_so_id)
  have "so' = so \<or> so' = so1
      \<or> so' = so1\<lparr>AnticipatedRevenue := AnticipatedRevenue so1 + storageRevenue acc,
                 ConfirmedRevenue := ConfirmedRevenue so1 + bandwidthRevenue acc,
                 RiskedCollateral := RiskedCollateral so1 + collateralRisked acc\<rparr>"
    using assms p
    by (auto simp: managedRevisionIteration_def WriteNegotiationRejection_def verifyRevision_def
          Let_def split: option.splits sum.splits if_splits)
  with id1 show ?thesis by auto
qed

lemma revisionLoop_so_id:
  "revisionLoop ext start script so = Some (r, so', written) \<Longrightarrow> so_id so' = so_id so"
proof (induction script arbitrary: so r so' written)
  case Nil
  then show ?case by simp
next
  case (Cons round script)
  obtain now h conn where round: "round = (now, h, conn)" by (cases round)
  obtain r1 so1 w1 where it: "managedRevisionIteration ext h conn so = (r1, so1, w1)"
    by (cases "managedRevisionIteration ext h conn so")
  have id1: "so_id so1 = so_id so"
    using it by (rule managedRevisionIteration_so_id)
  show ?case
  proof (cases "now < start + 1200 * Second")
    case False
    with Cons.prems round show ?thesis by simp
  next
    case True
    show ?thesis
    proof (cases r1)
      case (Some err)
      with Cons.prems round it True id1 show ?thesis by (auto split: if_splits)
    next
      case None
      with Cons.prems round it True obtain w2 where
        "revisionLoop ext start script so1 = Some (r, so', w2)"
        by (auto split: option.splits)
      then have "so_id so' = so_id so1" by (rule Cons.IH)
      with id1 show ?thesis by simp
    qed
  qed
qed

lemma revisionLoop_returns:
  assumes "\<exists>round \<in> set script. \<not> fst round < start + 1200 * Second"
  shows "revisionLoop ext start script so \<noteq> None"
  using assms
proof (induction script arbitrary: so)
  case Nil
  then show ?case by simp
next
  case (Cons round script)
  obtain now h conn where round: "round = (now, h, conn)" by (cases round)
  show ?case
  proof (cases "now < start + 1200 * Second")
    case False
    with round show ?thesis by simp
  next
    case True
    with Cons.prems round have "\<exists>round \<in> set script. \<not> fst round < start + 1200 * Second"
      by auto
    then have rest: "\<And>so1. revisionLoop ext start script so1 \<noteq> None" by (rule Cons.IH)
    obtain r1 so1 w1 where it: "managedRevisionIteration ext h conn so = (r1, so1, w1)"
      by (cases "managedRevisionIteration ext h conn so")
    show ?thesis
    proof (cases r1)
      case (Some err)
      with round True it show ?thesis by simp
    next
      case None
      with round True it rest[of so1] show ?thesis
        by (auto split: option.splits)
    qed
  qed
qed

lemma managedRPCReviseContract_returns:
  assumes "\<exists>round \<in> set (rounds script). \<not> fst round < startTime script + 1200 * Second"
  shows "managedRPCReviseContract ext locked script \<noteq> None"
proof (cases "recentRevision script")
  case (Inl err)
  then show ?thesis by (simp add: managedRPCReviseContract_def)
next
  case (Inr so)
  show ?thesis
  proof (cases "lockStorageObligation locked so")
    case (Inl err)
    with Inr show ?thesis by (simp add: managedRPCReviseContract_def)
  next
    case held: (Inr locked1)
    from assms have "revisionLoop ext (startTime script) (rounds script) so \<noteq> None"
      by (rule revisionLoop_returns)
    with Inr held show ?thesis
      by (auto simp: managedRPCReviseContract_def split: prod.splits)
  qed
qed

lemmas session_defs = managedRPCReviseContract_def lockStorageObligation_def
  unlockStorageObligation_def Second_def session_stop_def session_timeout_def session_error_def
  hostSig0_def

lemma run_stop:
  "managedRPCReviseContract ext0 {7} session_stop
     = Some (None, {7}, [Locked 1, Wrote AcceptFrame, Wrote AcceptFrame,
                         Wrote (SignatureFrame hostSig0), UnlockCalled 1])"
  by (simp add: session_defs round_defs test_defs)

lemma run_timeout:
  "managedRPCReviseContract ext0 {7} session_timeout
     = Some (None, {7}, [Locked 1, Wrote AcceptFrame, Wrote AcceptFrame,
                         Wrote (SignatureFrame hostSig0), UnlockCalled 1])"
  by (simp add: session_defs round_defs test_defs)

lemma run_error:
  "managedRPCReviseContract ext0 {7} session_error
     = Some (Some (errExternal ''connection reset''), {7}, [Locked 1, UnlockCalled 1])"
  by (simp add: session_defs round_defs test_defs)

text \<open>
  C9. In every session that acquires the obligation lock and returns, whatever it
  returns (no error after a stop response or after the session's duration has passed, or
  any error of a round), \<^verbatim>\<open>unlockStorageObligation\<close> is called exactly once, as the last
  thing the session does, and the table of locks is back to what it was before the
  session: the obligation is not held.
\<close>
theorem lock_released_on_every_exit:
  assumes "recentRevision script = Inr so"
    and "lockStorageObligation locked so = Inr locked1"
    and "managedRPCReviseContract ext locked script = Some (r, locked', events)"
  shows "locked' = locked \<and> so_id so \<notin> locked'
       \<and> (\<exists>written. events
             = [Locked (so_id so)] @ map Wrote written @ [UnlockCalled (so_id so)])"
proof -
  from assms(2) have free: "so_id so \<notin> locked" and l1: "locked1 = insert (so_id so) locked"
    by (auto simp: lockStorageObligation_def split: if_splits)
  from assms obtain so' written where
    loop: "revisionLoop ext (startTime script) (rounds script) so = Some (r, so', written)"
    by (auto simp: managedRPCReviseContract_def split: option.splits prod.splits)
  have id: "so_id so' = so_id so"
    using loop by (rule revisionLoop_so_id)
  have unlock: "unlockStorageObligation locked1 so' = (None, locked)"
    using free l1 id by (simp add: unlockStorageObligation_def)
  from assms(1,2,3) loop unlock id have
    res: "locked' = locked"
         "events = [Locked (so_id so)] @ map Wrote written @ [UnlockCalled (so_id so)]"
    by (simp_all add: managedRPCReviseContract_def)
  from res(2) have "\<exists>written. events
             = [Locked (so_id so)] @ map Wrote written @ [UnlockCalled (so_id so)]"
    by (rule exI)
  with res(1) free show ?thesis by simp
qed

theorem lock_released_on_every_exit_witness:
  "managedRPCReviseContract ext0 {7} session_stop
     = Some (None, {7}, [Locked 1, Wrote AcceptFrame, Wrote AcceptFrame,
                         Wrote (SignatureFrame hostSig0), UnlockCalled 1])
   \<and> managedRPCReviseContract ext0 {7} session_timeout
     = Some (None, {7}, [Locked 1, Wrote AcceptFrame, Wrote AcceptFrame,
                         Wrote (SignatureFrame hostSig0), UnlockCalled 1])
   \<and> managedRPCReviseContract ext0 {7} session_error
     = Some (Some (errExternal ''connection reset''), {7}, [Locked 1, UnlockCalled 1])
   \<and> so_id so0 \<notin> {7::nat}"
proof -
  have acquired: "lockStorageObligation {7} so0 = Inr {1, 7}"
    by (simp add: lockStorageObligation_def so0_def)
  have s1: "recentRevision session_stop = Inr so0"
    and s2: "recentRevision session_timeout = Inr so0"
    and s3: "recentRevision session_error = Inr so0"
    by (simp_all add: session_defs)
  show ?thesis
    using lock_released_on_every_exit[OF s1 acquired run_stop]
          lock_released_on_every_exit[OF s2 acquired run_timeout]
          lock_released_on_every_exit[OF s3 acquired run_error]
          run_stop run_timeout run_error
    by simp
qed

end
